theory Spec2Isabelle
  imports Complex_Main
begin

section \<open>JavaScript values used by server.js\<close>

text \<open>
  An exception value: \<open>TypeError\<close> is what reading \<open>.length\<close> of \<open>undefined\<close> throws,
  \<open>Rejected msg\<close> is a rejection coming out of the browser-automation layer
  (launch failure, navigation timeout, selector timeout, closed page).
\<close>

datatype exn = TypeError | Rejected string

text \<open>
  The result of \<open>Math.ceil(maxResults / sources.length)\<close>. The request's \<open>maxResults\<close> is
  modelled as a mathematical integer (doubles are exact on integers below \<open>2^53\<close>), so the
  quotient is a real number unless the divisor is \<open>0\<close>, where JavaScript yields
  \<open>Infinity\<close>, \<open>-Infinity\<close> or \<open>NaN\<close>.
\<close>

datatype jsnum = Num int | PosInfinity | NegInfinity | NaN

text \<open>
  A property of a job object that enrichment may add: absent, present with \<open>null\<close>,
  or present with a string.
\<close>

datatype jsfield = Absent | Null | Str string

definition truthy :: "string option \<Rightarrow> bool" where
  \<comment> \<open>\<open>undefined\<close>, \<open>null\<close> and the empty string are falsy\<close>
  "truthy v = (case v of None \<Rightarrow> False | Some s \<Rightarrow> s \<noteq> [])"

definition of_nullable :: "string option \<Rightarrow> jsfield" where
  "of_nullable v = (case v of None \<Rightarrow> Null | Some s \<Rightarrow> Str s)"

definition or_default :: "string option \<Rightarrow> string \<Rightarrow> string" where
  \<comment> \<open>\<open>v || d\<close> on a string or \<open>undefined\<close>\<close>
  "or_default v d = (case v of None \<Rightarrow> d | Some s \<Rightarrow> if s = [] then d else s)"

definition math_ceil_div :: "int \<Rightarrow> nat \<Rightarrow> jsnum" where
  \<comment> \<open>\<open>Math.ceil(m / n)\<close> for an integer \<open>m\<close> and an array length \<open>n\<close>\<close>
  "math_ceil_div m n =
     (if n = 0 then (if 0 < m then PosInfinity else if m < 0 then NegInfinity else NaN)
      else Num \<lceil>real_of_int m / real n\<rceil>)"

definition slice0 :: "jsnum \<Rightarrow> 'a list \<Rightarrow> 'a list" where
  \<comment> \<open>\<open>xs.slice(0, e)\<close>: a negative end counts from the end of the array,
      \<open>NaN\<close> is read as \<open>0\<close>, the result is clamped to the array\<close>
  "slice0 e xs =
     (case e of
        Num k \<Rightarrow> if k < 0 then take (nat (int (length xs) + k)) xs else take (nat k) xs
      | PosInfinity \<Rightarrow> xs
      | NegInfinity \<Rightarrow> []
      | NaN \<Rightarrow> [])"

section \<open>Job records\<close>

text \<open>
  \<open>raw_job\<close> holds the properties that the two extractors write into a record
  (server.js lines 71-80 and 139-149); \<open>experience\<close> is written by the Naukri
  extractor only, \<open>postedDate\<close> is \<open>null\<close> when LinkedIn's \<open>time\<close> element has no
  \<open>datetime\<close> attribute. The handler's job object is the same object with, possibly,
  the two enrichment properties added. Every record that an extractor returns is a
  fresh object, so no two positions of the merged array alias each other and the array
  is modelled as a list of values.
\<close>

record raw_job =
  job_id :: string
  title :: string
  company :: string
  job_location :: string
  experience :: "string option"
  jobUrl :: string
  postedDate :: "string option"
  source :: string
  status :: string

record job = raw_job +
  careerPageUrl :: jsfield
  hrEmail :: jsfield

definition scraped :: "raw_job \<Rightarrow> job" where
  \<comment> \<open>a record as the extractor returned it: no enrichment property\<close>
  "scraped r = raw_job.extend r (job.fields Absent Absent)"

section \<open>The browser as seen by one enrichment call\<close>

text \<open>
  Each call of \<open>findCareerPage\<close> and \<open>findHREmail\<close> performs a fixed sequence of
  browser operations. A \<open>page\<close> says, for one call, which of them rejects (\<open>Some e\<close>)
  and what the page shows: the \<open>href\<close> of the first \<open>div.g a\<close> element (if any) and the
  visible text of the body.
\<close>

record page =
  getBrowser_throws :: "exn option"
  newPage_throws :: "exn option"
  setUserAgent_throws :: "exn option"
  goto_throws :: "exn option"
  evaluate_throws :: "exn option"
  close_throws :: "exn option"
  firstResult :: "string option"
  bodyText :: string

datatype browser_op =
  GetBrowser | NewPage | SetUserAgent | Goto string | Evaluate | ClosePage

subsection \<open>encodeURIComponent\<close>

text \<open>
  Strings are byte strings (UTF-8), so escaping a character outside the unreserved set
  is escaping each of its bytes. A lone surrogate, on which the JavaScript function
  throws, has no counterpart in a byte string; in \<open>findCareerPage\<close> the call stands
  inside the \<open>try\<close> block.
\<close>

definition uri_unreserved :: "char \<Rightarrow> bool" where
  "uri_unreserved c =
     (c \<in> set ''ABCDEFGHIJKLMNOPQRSTUVWXYZabcdefghijklmnopqrstuvwxyz0123456789-_.!~*()''
      \<or> c = CHR 0x27)"

definition hex_digit :: "nat \<Rightarrow> char" where
  "hex_digit n = ''0123456789ABCDEF'' ! (n mod 16)"

definition encodeURIComponent :: "string \<Rightarrow> string" where
  "encodeURIComponent s =
     concat (map (\<lambda>c. if uri_unreserved c then [c]
                       else [CHR ''%'', hex_digit (of_char c div 16), hex_digit (of_char c)]) s)"

subsection \<open>findCareerPage (server.js lines 169-193)\<close>

definition careerSearchUrl :: "string \<Rightarrow> string" where
  "careerSearchUrl companyName =
     ''https://www.google.com/search?q='' @ encodeURIComponent (companyName @ '' careers'')"

definition findCareerPage_try :: "page \<Rightarrow> string \<Rightarrow> browser_op list \<times> string option" where
  \<comment> \<open>the \<open>try\<close> block with its \<open>catch\<close>: every rejection inside becomes \<open>null\<close>\<close>
  "findCareerPage_try pg companyName =
     (case setUserAgent_throws pg of
        Some e \<Rightarrow> ([SetUserAgent], None)
      | None \<Rightarrow>
         (case goto_throws pg of
            Some e \<Rightarrow> ([SetUserAgent, Goto (careerSearchUrl companyName)], None)
          | None \<Rightarrow>
             (case evaluate_throws pg of
                Some e \<Rightarrow> ([SetUserAgent, Goto (careerSearchUrl companyName), Evaluate], None)
              | None \<Rightarrow>
                 ([SetUserAgent, Goto (careerSearchUrl companyName), Evaluate],
                  firstResult pg))))"

definition findCareerPage :: "page \<Rightarrow> string \<Rightarrow> browser_op list \<times> (exn + string option)" where
  \<comment> \<open>\<open>getBrowser()\<close> and \<open>browser.newPage()\<close> stand before the \<open>try\<close>;
      \<open>page.close()\<close> stands in the \<open>finally\<close>, and a rejection there replaces the result\<close>
  "findCareerPage pg companyName =
     (case getBrowser_throws pg of
        Some e \<Rightarrow> ([GetBrowser], Inl e)
      | None \<Rightarrow>
         (case newPage_throws pg of
            Some e \<Rightarrow> ([GetBrowser, NewPage], Inl e)
          | None \<Rightarrow>
             (let (ops, careerUrl) = findCareerPage_try pg companyName in
              case close_throws pg of
                Some e \<Rightarrow> ([GetBrowser, NewPage] @ ops @ [ClosePage], Inl e)
              | None \<Rightarrow> ([GetBrowser, NewPage] @ ops @ [ClosePage], Inr careerUrl))))"

subsection \<open>The email regular expression (server.js line 209)\<close>

text \<open>
  \<open>/\b[A-Za-z0-9._%+-]+@[A-Za-z0-9.-]+\.[A-Z|a-z]{2,}\b/g\<close>, matched by
  \<open>String.prototype.match\<close>: all matches, leftmost first, each found by the
  backtracking matcher with greedy quantifiers, the search resuming where the previous
  match ended. Every character class is ASCII, so bytes above 127 behave as any other
  character outside the classes.
\<close>

definition is_alnum :: "char \<Rightarrow> bool" where
  "is_alnum c =
     (c \<in> set ''ABCDEFGHIJKLMNOPQRSTUVWXYZabcdefghijklmnopqrstuvwxyz0123456789'')"

definition is_word :: "char \<Rightarrow> bool" where
  \<comment> \<open>\<open>\w\<close>, which decides \<open>\b\<close>\<close>
  "is_word c = (is_alnum c \<or> c = CHR ''_'')"

definition is_local :: "char \<Rightarrow> bool" where
  \<comment> \<open>\<open>[A-Za-z0-9._%+-]\<close>\<close>
  "is_local c = (is_alnum c \<or> c \<in> set ''._%+-'')"

definition is_domain :: "char \<Rightarrow> bool" where
  \<comment> \<open>\<open>[A-Za-z0-9.-]\<close>\<close>
  "is_domain c = (is_alnum c \<or> c \<in> set ''.-'')"

definition is_tld :: "char \<Rightarrow> bool" where
  \<comment> \<open>\<open>[A-Z|a-z]\<close>: the bar is a member of the class\<close>
  "is_tld c =
     (c \<in> set ''ABCDEFGHIJKLMNOPQRSTUVWXYZ|abcdefghijklmnopqrstuvwxyz'')"

definition word_boundary :: "char option \<Rightarrow> string \<Rightarrow> bool" where
  \<comment> \<open>\<open>\b\<close> between the character before the position (if any) and the text after it\<close>
  "word_boundary prev s =
     ((case prev of None \<Rightarrow> False | Some c \<Rightarrow> is_word c)
      \<noteq> (case s of [] \<Rightarrow> False | c # _ \<Rightarrow> is_word c))"

fun match_tld :: "nat \<Rightarrow> string \<Rightarrow> string option" where
  \<comment> \<open>\<open>[A-Z|a-z]{2,}\b\<close> on text that starts with a run of at least \<open>j\<close> class
      characters: the longest length from \<open>j\<close> down to \<open>2\<close> that ends at a word boundary\<close>
  "match_tld 0 s = None"
| "match_tld (Suc j) s =
     (if 2 \<le> Suc j \<and> word_boundary (Some (s ! j)) (drop (Suc j) s)
      then Some (take (Suc j) s)
      else match_tld j s)"

fun match_domain :: "nat \<Rightarrow> string \<Rightarrow> string option" where
  \<comment> \<open>\<open>[A-Za-z0-9.-]+\.[A-Z|a-z]{2,}\b\<close> on text that starts with a run of at least
      \<open>k\<close> class characters: the longest length from \<open>k\<close> down to \<open>1\<close> after which a
      dot and the rest of the pattern match\<close>
  "match_domain 0 s = None"
| "match_domain (Suc k) s =
     (case drop (Suc k) s of
        [] \<Rightarrow> match_domain k s
      | c # after \<Rightarrow>
          if c = CHR ''.'' then
            (case match_tld (length (takeWhile is_tld after)) after of
               Some tld \<Rightarrow> Some (take (Suc k) s @ CHR ''.'' # tld)
             | None \<Rightarrow> match_domain k s)
          else match_domain k s)"

definition match_email :: "char option \<Rightarrow> string \<Rightarrow> string option" where
  \<comment> \<open>the whole pattern at one position; \<open>@\<close> is not in the first class, so only the
      longest run of the first class can be followed by it\<close>
  "match_email prev s =
     (if \<not> word_boundary prev s then None
      else
        (let local_part = takeWhile is_local s in
         if local_part = [] then None
         else
           (case dropWhile is_local s of
              [] \<Rightarrow> None
            | c # after \<Rightarrow>
                if c = CHR ''@'' then
                  (case match_domain (length (takeWhile is_domain after)) after of
                     Some d \<Rightarrow> Some (local_part @ CHR ''@'' # d)
                   | None \<Rightarrow> None)
                else None)))"

fun match_all :: "nat \<Rightarrow> char option \<Rightarrow> string \<Rightarrow> string list" where
  \<comment> \<open>the global search; the first argument counts the characters of the current match
      still to be passed over\<close>
  "match_all skip prev [] = []"
| "match_all 0 prev (c # cs) =
     (case match_email prev (c # cs) of
        Some m \<Rightarrow> m # match_all (length m - 1) (Some c) cs
      | None \<Rightarrow> match_all 0 (Some c) cs)"
| "match_all (Suc n) prev (c # cs) = match_all n (Some c) cs"

definition match_emailRegex :: "string \<Rightarrow> string list option" where
  \<comment> \<open>\<open>bodyText.match(emailRegex)\<close>: \<open>null\<close> when nothing matches\<close>
  "match_emailRegex str =
     (case match_all 0 None str of [] \<Rightarrow> None | m # ms \<Rightarrow> Some (m # ms))"

subsection \<open>The role pattern (server.js line 216)\<close>

definition to_lower :: "char \<Rightarrow> char" where
  "to_lower c =
     (case map_of (zip ''ABCDEFGHIJKLMNOPQRSTUVWXYZ'' ''abcdefghijklmnopqrstuvwxyz'') c of
        Some l \<Rightarrow> l
      | None \<Rightarrow> c)"

fun starts_with :: "string \<Rightarrow> string \<Rightarrow> bool" where
  "starts_with [] s = True"
| "starts_with (p # ps) [] = False"
| "starts_with (p # ps) (c # cs) = (p = c \<and> starts_with ps cs)"

fun contains :: "string \<Rightarrow> string \<Rightarrow> bool" where
  "contains pat [] = starts_with pat []"
| "contains pat (c # cs) = (starts_with pat (c # cs) \<or> contains pat cs)"

definition role_test :: "string \<Rightarrow> bool" where
  \<comment> \<open>\<open>/hr|careers|recruitment|jobs|talent/i.test(email)\<close>\<close>
  "role_test email =
     (let e = map to_lower email in
      contains ''hr'' e \<or> contains ''careers'' e \<or> contains ''recruitment'' e
      \<or> contains ''jobs'' e \<or> contains ''talent'' e)"

subsection \<open>findHREmail (server.js lines 196-230)\<close>

definition pick_email :: "string \<Rightarrow> string option" where
  \<comment> \<open>the function evaluated in the page, applied to \<open>document.body.innerText\<close>\<close>
  "pick_email innerText =
     (case match_emailRegex innerText of
        None \<Rightarrow> None
      | Some emails \<Rightarrow>
          if length emails > 0 then
            (case find role_test emails of
               Some hr \<Rightarrow> if hr \<noteq> [] then Some hr else Some (emails ! 0)
             | None \<Rightarrow> Some (emails ! 0))
          else None)"

definition findHREmail_try :: "page \<Rightarrow> string \<Rightarrow> browser_op list \<times> string option" where
  "findHREmail_try pg url =
     (case goto_throws pg of
        Some e \<Rightarrow> ([Goto url], None)
      | None \<Rightarrow>
         (case evaluate_throws pg of
            Some e \<Rightarrow> ([Goto url, Evaluate], None)
          | None \<Rightarrow> ([Goto url, Evaluate], pick_email (bodyText pg))))"

definition findHREmail :: "page \<Rightarrow> string option \<Rightarrow> browser_op list \<times> (exn + string option)" where
  "findHREmail pg careerPageUrl_arg =
     (case careerPageUrl_arg of
        None \<Rightarrow> ([], Inr None)
      | Some url \<Rightarrow>
         if url = [] then ([], Inr None)
         else
           (case getBrowser_throws pg of
              Some e \<Rightarrow> ([GetBrowser], Inl e)
            | None \<Rightarrow>
               (case newPage_throws pg of
                  Some e \<Rightarrow> ([GetBrowser, NewPage], Inl e)
                | None \<Rightarrow>
                   (let (ops, email) = findHREmail_try pg url in
                    case close_throws pg of
                      Some e \<Rightarrow> ([GetBrowser, NewPage] @ ops @ [ClosePage], Inl e)
                    | None \<Rightarrow> ([GetBrowser, NewPage] @ ops @ [ClosePage], Inr email)))))"

section \<open>The scrape handler (server.js lines 233-297)\<close>

text \<open>
  The request body after \<open>express.json()\<close>: a property that is missing is \<open>None\<close>.
  \<open>sources\<close> is modelled for the shapes the endpoint documents: missing, or an array of
  strings.
\<close>

record request =
  req_keywords :: "string option"
  location :: "string option"
  sources :: "string list option"
  maxResults :: "int option"

text \<open>
  What the outside world does during one request. The extractors \<open>scrapeLinkedIn\<close> and
  \<open>scrapeNaukri\<close> drive a remote browser; the outcome of the call made in loop iteration
  \<open>k\<close> with the given keywords, location and page number is either a rejection or the
  list of records read from the page. \<open>careerSession i\<close> and \<open>emailSession i\<close> are the
  browser's behaviour during the two enrichment calls made for the job at index \<open>i\<close>.
\<close>

record world =
  scrapeLinkedIn :: "nat \<Rightarrow> string \<Rightarrow> string \<Rightarrow> nat \<Rightarrow> exn + raw_job list"
  scrapeNaukri :: "nat \<Rightarrow> string \<Rightarrow> string \<Rightarrow> nat \<Rightarrow> exn + raw_job list"
  careerSession :: "nat \<Rightarrow> page"
  emailSession :: "nat \<Rightarrow> page"

datatype frame = Progress string nat | Complete "job list"

datatype body = ErrorBody string | FailureBody string exn

datatype response = Json nat body | EventStream "frame list"

definition scrape_source ::
  "world \<Rightarrow> string \<Rightarrow> string option \<Rightarrow> jsnum \<Rightarrow> nat \<Rightarrow> string \<Rightarrow> frame list \<times> job list" where
  \<comment> \<open>one iteration of the loop over \<open>sources\<close>: the frames written and the records
      appended to \<open>allJobs\<close>; a rejection of the extractor skips the append\<close>
  "scrape_source w kw loc resultsPerSource k src =
     (if src = ''linkedin'' then
        ([Progress ''Searching LinkedIn...'' 20],
         case scrapeLinkedIn w k kw (or_default loc ''India'') 0 of
           Inl err \<Rightarrow> []
         | Inr sourceJobs \<Rightarrow> slice0 resultsPerSource (map scraped sourceJobs))
      else if src = ''naukri'' then
        ([Progress ''Searching Naukri.com...'' 40],
         case scrapeNaukri w k kw (or_default loc ''India'') 0 of
           Inl err \<Rightarrow> []
         | Inr sourceJobs \<Rightarrow> slice0 resultsPerSource (map scraped sourceJobs))
      else ([], slice0 resultsPerSource []))"

fun scrape_loop ::
  "world \<Rightarrow> string \<Rightarrow> string option \<Rightarrow> jsnum \<Rightarrow> nat \<Rightarrow> string list
     \<Rightarrow> frame list \<times> job list \<Rightarrow> frame list \<times> job list" where
  "scrape_loop w kw loc resultsPerSource k [] (frames, allJobs) = (frames, allJobs)"
| "scrape_loop w kw loc resultsPerSource k (src # rest) (frames, allJobs) =
     (let (fs, js) = scrape_source w kw loc resultsPerSource k src
      in scrape_loop w kw loc resultsPerSource (Suc k) rest (frames @ fs, allJobs @ js))"

definition enrich_job :: "world \<Rightarrow> nat \<Rightarrow> job \<Rightarrow> job" where
  \<comment> \<open>the body of the enrichment loop with its \<open>try\<close>/\<open>catch\<close>: an assignment whose
      right-hand side rejects does not happen\<close>
  "enrich_job w i j =
     (case snd (findCareerPage (careerSession w i) (company j)) of
        Inl err \<Rightarrow> j
      | Inr url \<Rightarrow>
          (let j1 = j\<lparr>careerPageUrl := of_nullable url\<rparr> in
           if truthy url then
             (case snd (findHREmail (emailSession w i) url) of
                Inl err \<Rightarrow> j1
              | Inr email \<Rightarrow> j1\<lparr>hrEmail := of_nullable email\<rparr>)
           else j1))"

function enrich_loop :: "world \<Rightarrow> nat \<Rightarrow> job list \<Rightarrow> job list" where
  "enrich_loop w i allJobs =
     (if i < min (length allJobs) 5
      then enrich_loop w (Suc i) (allJobs[i := enrich_job w i (allJobs ! i)])
      else allJobs)"
  by pat_completeness auto
termination
  by (relation "measure (\<lambda>(w, i, allJobs). 5 - i)") auto

definition maxResults_or_default :: "request \<Rightarrow> int" where
  \<comment> \<open>the destructuring default: \<open>maxResults = 20\<close> when the property is missing\<close>
  "maxResults_or_default req = (case maxResults req of None \<Rightarrow> 20 | Some m \<Rightarrow> m)"

definition resultsPerSource :: "request \<Rightarrow> string list \<Rightarrow> jsnum" where
  "resultsPerSource req srcs = math_ceil_div (maxResults_or_default req) (length srcs)"

text \<open>
  The handler. A falsy \<open>keywords\<close> is answered with status 400 before anything else.
  Reading \<open>sources.length\<close> of a missing \<open>sources\<close> throws inside the outer \<open>try\<close>, before
  the first write, and is answered with status 500. Otherwise the response is the stream
  of frames written by \<open>res.write\<close>: every rejection after the first write is caught by
  the \<open>try\<close> of its own loop iteration, so the outer \<open>catch\<close> is not reached again.
\<close>

definition handler :: "world \<Rightarrow> request \<Rightarrow> response" where
  "handler w req =
     (case req_keywords req of
        None \<Rightarrow> Json 400 (ErrorBody ''Keywords are required'')
      | Some kw \<Rightarrow>
          if kw = [] then Json 400 (ErrorBody ''Keywords are required'')
          else
            (case sources req of
               None \<Rightarrow> Json 500 (FailureBody ''Failed to scrape jobs'' TypeError)
             | Some srcs \<Rightarrow>
                 (let (frames, allJobs) =
                        scrape_loop w kw (location req) (resultsPerSource req srcs) 0 srcs ([], [])
                  in EventStream
                       (frames
                        @ [Progress ''Finding career pages...'' 60]
                        @ [Progress ''Complete!'' 100, Complete (enrich_loop w 0 allJobs)]))))"

section \<open>Observing a response\<close>

fun progress_of :: "frame \<Rightarrow> nat option" where
  "progress_of (Progress message percent) = Some percent"
| "progress_of (Complete jobs) = None"

fun is_progress :: "frame \<Rightarrow> bool" where
  "is_progress (Progress message percent) = True"
| "is_progress (Complete jobs) = False"

definition progress_values :: "frame list \<Rightarrow> nat list" where
  \<comment> \<open>the \<open>progress\<close> numbers of the progress frames, in stream order\<close>
  "progress_values frames = List.map_filter progress_of frames"

definition valid_request :: "request \<Rightarrow> bool" where
  \<comment> \<open>keywords present, sources a non-empty list of known identifiers, maxResults a
      positive integer when given\<close>
  "valid_request req =
     (truthy (req_keywords req)
      \<and> (case sources req of
            None \<Rightarrow> False
          | Some srcs \<Rightarrow> srcs \<noteq> [] \<and> list_all (\<lambda>s. s = ''linkedin'' \<or> s = ''naukri'') srcs)
      \<and> (case maxResults req of None \<Rightarrow> True | Some m \<Rightarrow> 0 < m))"

fun naukri_before_linkedin :: "string list \<Rightarrow> bool" where
  \<comment> \<open>some \<open>linkedin\<close> entry stands after some \<open>naukri\<close> entry\<close>
  "naukri_before_linkedin [] = False"
| "naukri_before_linkedin (s # ss) =
     ((s = ''naukri'' \<and> ''linkedin'' \<in> set ss) \<or> naukri_before_linkedin ss)"

definition extractor_outcome ::
  "world \<Rightarrow> string \<Rightarrow> string option \<Rightarrow> nat \<Rightarrow> string \<Rightarrow> (exn + raw_job list) option" where
  \<comment> \<open>what the extractor called in iteration \<open>k\<close> for source \<open>src\<close> does; \<open>None\<close> when
      the identifier is unknown and no extractor is called\<close>
  "extractor_outcome w kw loc k src =
     (if src = ''linkedin'' then Some (scrapeLinkedIn w k kw (or_default loc ''India'') 0)
      else if src = ''naukri'' then Some (scrapeNaukri w k kw (or_default loc ''India'') 0)
      else None)"

definition scrape_frames :: "world \<Rightarrow> string \<Rightarrow> request \<Rightarrow> string list \<Rightarrow> frame list" where
  \<comment> \<open>the frames written by the loop over \<open>sources\<close>\<close>
  "scrape_frames w kw req srcs =
     fst (scrape_loop w kw (location req) (resultsPerSource req srcs) 0 srcs ([], []))"

definition merged_jobs :: "world \<Rightarrow> string \<Rightarrow> request \<Rightarrow> string list \<Rightarrow> job list" where
  \<comment> \<open>\<open>allJobs\<close> when the loop over \<open>sources\<close> has ended\<close>
  "merged_jobs w kw req srcs =
     snd (scrape_loop w kw (location req) (resultsPerSource req srcs) 0 srcs ([], []))"

definition contribution :: "world \<Rightarrow> string \<Rightarrow> request \<Rightarrow> string list \<Rightarrow> nat \<Rightarrow> string \<Rightarrow> job list" where
  \<comment> \<open>the records that iteration \<open>k\<close>, for source \<open>src\<close>, appends to \<open>allJobs\<close>\<close>
  "contribution w kw req srcs k src =
     snd (scrape_source w kw (location req) (resultsPerSource req srcs) k src)"

definition frames_of :: "response \<Rightarrow> frame list" where
  "frames_of r = (case r of EventStream frames \<Rightarrow> frames | Json code b \<Rightarrow> [])"

definition complete_jobs :: "response \<Rightarrow> job list option" where
  \<comment> \<open>the job list of the complete frame of a stream that holds exactly one\<close>
  "complete_jobs r =
     (case filter (\<lambda>f. \<not> is_progress f) (frames_of r) of
        [Complete jobs] \<Rightarrow> Some jobs
      | _ \<Rightarrow> None)"

definition source_percents :: "string list \<Rightarrow> nat list" where
  \<comment> \<open>the \<open>progress\<close> numbers written by the loop over \<open>sources\<close>\<close>
  "source_percents srcs =
     concat (map (\<lambda>s. if s = ''linkedin'' then [20] else if s = ''naukri'' then [40] else [])
                 srcs)"

section \<open>Concrete requests and worlds\<close>

definition sample_job :: "string \<Rightarrow> nat \<Rightarrow> raw_job" where
  "sample_job src n =
     \<lparr>job_id = src @ ''-1700000000000-'' @ [hex_digit n],
      title = ''Backend Engineer'',
      company = ''Acme'',
      job_location = ''Pune'',
      experience = None,
      jobUrl = ''https://jobs.example/view/'' @ [hex_digit n],
      postedDate = Some ''2024-01-15'',
      source = src,
      status = ''scraped''\<rparr>"

definition ok_page :: page where
  "ok_page =
     \<lparr>getBrowser_throws = None, newPage_throws = None, setUserAgent_throws = None,
      goto_throws = None, evaluate_throws = None, close_throws = None,
      firstResult = Some ''https://acme.example/careers'',
      bodyText = ''Write to info@acme.example or HR@acme.example.''\<rparr>"

definition no_session_page :: page where
  \<comment> \<open>\<open>browser.newPage()\<close> rejects\<close>
  "no_session_page = ok_page\<lparr>newPage_throws := Some (Rejected ''Target closed'')\<rparr>"

definition timeout_page :: page where
  \<comment> \<open>\<open>page.goto\<close> rejects with a navigation timeout\<close>
  "timeout_page = ok_page\<lparr>goto_throws := Some (Rejected ''Navigation timeout'')\<rparr>"

definition demo_world :: world where
  "demo_world =
     \<lparr>scrapeLinkedIn = (\<lambda>k kw loc p. Inr (map (sample_job ''linkedin'') [0..<7])),
      scrapeNaukri = (\<lambda>k kw loc p. Inr (map (sample_job ''naukri'') [0..<7])),
      careerSession = (\<lambda>i. ok_page),
      emailSession = (\<lambda>i. ok_page)\<rparr>"

definition naukri_down_world :: world where
  "naukri_down_world =
     demo_world\<lparr>scrapeNaukri := (\<lambda>k kw loc p. Inl (Rejected ''waiting for selector failed''))\<rparr>"

definition demo_request :: "string list \<Rightarrow> int \<Rightarrow> request" where
  "demo_request srcs m =
     \<lparr>req_keywords = Some ''backend engineer'', location = None,
      sources = Some srcs, maxResults = Some m\<rparr>"


definition no_keywords_request :: request where
  "no_keywords_request =
     \<lparr>req_keywords = None, location = None,
      sources = Some [''linkedin''], maxResults = None\<rparr>"

section \<open>Properties of the two loops\<close>

declare enrich_loop.simps [simp del]

lemma scrape_loop_enumerate:
  "scrape_loop w kw loc b k srcs (fs, js) =
     (fs @ concat (map (\<lambda>(i, s). fst (scrape_source w kw loc b i s)) (enumerate k srcs)),
      js @ concat (map (\<lambda>(i, s). snd (scrape_source w kw loc b i s)) (enumerate k srcs)))"
  by (induction srcs arbitrary: k fs js) (simp_all add: split_beta)

lemma enrich_loop_step:
  "i < min (length js) 5 \<Longrightarrow>
     enrich_loop w i js = enrich_loop w (Suc i) (js[i := enrich_job w i (js ! i)])"
  by (simp add: enrich_loop.simps[of w i js])

lemma enrich_loop_stop: "\<not> i < min (length js) 5 \<Longrightarrow> enrich_loop w i js = js"
  by (auto simp: enrich_loop.simps[of w i js])

lemma enrich_loop_length: "length (enrich_loop w i js) = length js"
proof (induction w i js rule: enrich_loop.induct)
  case (1 w i allJobs)
  show ?case
  proof (cases "i < min (length allJobs) 5")
    case True
    with 1 show ?thesis by (simp add: enrich_loop_step)
  next
    case False
    then show ?thesis by (simp add: enrich_loop_stop)
  qed
qed

lemma enrich_loop_untouched:
  "k < i \<or> 5 \<le> k \<Longrightarrow> enrich_loop w i js ! k = js ! k"
proof (induction w i js rule: enrich_loop.induct)
  case (1 w i allJobs)
  show ?case
  proof (cases "i < min (length allJobs) 5")
    case True
    from 1(2) True have "k < Suc i \<or> 5 \<le> k" and "k \<noteq> i" by auto
    with 1(1)[OF True] True show ?thesis by (simp add: enrich_loop_step)
  next
    case False
    then show ?thesis by (simp add: enrich_loop_stop)
  qed
qed

lemma enrich_loop_enriched:
  "i \<le> k \<Longrightarrow> k < min (length js) 5 \<Longrightarrow> enrich_loop w i js ! k = enrich_job w k (js ! k)"
proof (induction w i js rule: enrich_loop.induct)
  case (1 w i allJobs)
  from 1(2,3) have run: "i < min (length allJobs) 5" by simp
  show ?case
  proof (cases "k = i")
    case True
    have "enrich_loop w (Suc i) (allJobs[i := enrich_job w i (allJobs ! i)]) ! i
          = (allJobs[i := enrich_job w i (allJobs ! i)]) ! i"
      by (rule enrich_loop_untouched) simp
    with run True show ?thesis
      by (simp add: enrich_loop_step)
  next
    case False
    with 1(2) have "Suc i \<le> k" by simp
    with 1(1)[OF run] 1(3) False run show ?thesis
      by (simp add: enrich_loop_step)
  qed
qed

lemma enrich_job_raw: "raw_job.truncate (enrich_job w i j) = raw_job.truncate j"
  by (simp add: enrich_job_def raw_job.defs Let_def split: sum.splits)

lemma enrich_job_hr:
  "hrEmail j = Absent \<Longrightarrow> hrEmail (enrich_job w i j) \<noteq> Absent
     \<Longrightarrow> \<exists>u. careerPageUrl (enrich_job w i j) = Str u \<and> u \<noteq> []"
  by (auto simp: enrich_job_def Let_def truthy_def of_nullable_def split: sum.splits option.splits if_splits)

lemma scraped_fields: "careerPageUrl (scraped r) = Absent" "hrEmail (scraped r) = Absent"
  "raw_job.truncate (scraped r) = r"
  by (simp_all add: scraped_def raw_job.defs job.defs)

section \<open>The shape of a streamed response\<close>

lemma handler_streams:
  assumes "req_keywords req = Some kw" and "kw \<noteq> []" and "sources req = Some srcs"
  shows "handler w req =
           EventStream (scrape_frames w kw req srcs
                        @ [Progress ''Finding career pages...'' 60, Progress ''Complete!'' 100,
                           Complete (enrich_loop w 0 (merged_jobs w kw req srcs))])"
  using assms by (simp add: handler_def scrape_frames_def merged_jobs_def split_beta)

lemma handler_stream_cases:
  assumes "handler w req = EventStream frames"
  obtains kw srcs where "req_keywords req = Some kw" and "kw \<noteq> []" and "sources req = Some srcs"
  using assms by (auto simp: handler_def split: option.splits if_splits)

lemma scrape_frames_enumerate:
  "scrape_frames w kw req srcs =
     concat (map (\<lambda>(k, s). fst (scrape_source w kw (location req) (resultsPerSource req srcs) k s))
                 (enumerate 0 srcs))"
  by (simp add: scrape_frames_def scrape_loop_enumerate)

lemma merged_jobs_enumerate:
  "merged_jobs w kw req srcs =
     concat (map (\<lambda>(k, s). snd (scrape_source w kw (location req) (resultsPerSource req srcs) k s))
                 (enumerate 0 srcs))"
  by (simp add: merged_jobs_def scrape_loop_enumerate)

lemma set_slice0: "set (slice0 e xs) \<subseteq> set xs"
  by (auto simp: slice0_def split: jsnum.splits dest: in_set_takeD)

lemma scrape_source_fresh:
  assumes "j \<in> set (snd (scrape_source w kw loc b k s))"
  shows "careerPageUrl j = Absent \<and> hrEmail j = Absent"
  using assms set_slice0 [of b]
  by (fastforce simp: scrape_source_def scraped_fields split: if_splits sum.splits)

lemma merged_jobs_fresh:
  assumes "j \<in> set (merged_jobs w kw req srcs)"
  shows "careerPageUrl j = Absent \<and> hrEmail j = Absent"
  using assms by (auto simp: merged_jobs_enumerate dest: scrape_source_fresh)

lemma scrape_source_progress: "f \<in> set (fst (scrape_source w kw loc b k s)) \<Longrightarrow> is_progress f"
  by (auto simp: scrape_source_def split: if_splits)

lemma scrape_frames_progress: "f \<in> set (scrape_frames w kw req srcs) \<Longrightarrow> is_progress f"
  by (auto simp: scrape_frames_enumerate dest: scrape_source_progress)

section \<open>The per-source budget\<close>

lemma length_slice0_Num: "0 \<le> c \<Longrightarrow> int (length (slice0 (Num c) xs)) \<le> c"
  by (simp add: slice0_def)

lemma slice0_Nil: "slice0 e [] = []"
  by (simp add: slice0_def split: jsnum.splits)

lemma scrape_source_outcome:
  "snd (scrape_source w kw loc b k s) =
     (case extractor_outcome w kw loc k s of
        Some (Inr sourceJobs) \<Rightarrow> slice0 b (map scraped sourceJobs)
      | _ \<Rightarrow> [])"
  by (simp add: scrape_source_def extractor_outcome_def slice0_Nil split: sum.splits)

lemma length_scrape_source:
  "0 \<le> c \<Longrightarrow> int (length (snd (scrape_source w kw loc (Num c) k s))) \<le> c"
  using length_slice0_Num [of c]
  by (auto simp: scrape_source_outcome split: option.splits sum.splits)

lemma length_concat_bound:
  assumes "\<And>x. x \<in> set xs \<Longrightarrow> int (length (f x)) \<le> c"
  shows "int (length (concat (map f xs))) \<le> int (length xs) * c"
  using assms
proof (induction xs)
  case Nil
  then show ?case by simp
next
  case (Cons x xs)
  then have "int (length (f x)) \<le> c" and "int (length (concat (map f xs))) \<le> int (length xs) * c"
    by simp_all
  then show ?case by (simp add: algebra_simps)
qed

lemma valid_request_budget:
  assumes "valid_request req" and "sources req = Some srcs"
  shows "resultsPerSource req srcs
           = Num \<lceil>real_of_int (maxResults_or_default req) / real (length srcs)\<rceil>"
    and "0 < maxResults_or_default req"
    and "srcs \<noteq> []"
  using assms
  by (auto simp: valid_request_def resultsPerSource_def math_ceil_div_def maxResults_or_default_def
           split: option.splits)

lemma ceiling_quotient_bounds:
  fixes m :: int and n :: nat
  assumes "0 < n"
  shows "int n * \<lceil>real_of_int m / real n\<rceil> < m + int n"
    and "int n dvd m \<Longrightarrow> int n * \<lceil>real_of_int m / real n\<rceil> = m"
    and "0 < m \<Longrightarrow> 0 < \<lceil>real_of_int m / real n\<rceil>"
proof -
  have eq: "\<lceil>real_of_int m / real n\<rceil> = - ((- m) div int n)"
    using ceiling_divide_eq_div [of m "int n"] by simp
  have "- (int n * ((- m) div int n)) = m + (- m) mod int n"
    using mult_div_mod_eq [of "int n" "- m"] by linarith
  moreover have "(- m) mod int n < int n" using assms by simp
  ultimately show "int n * \<lceil>real_of_int m / real n\<rceil> < m + int n"
    unfolding eq by simp
  show "int n * \<lceil>real_of_int m / real n\<rceil> = m" if "int n dvd m"
    using that assms unfolding eq by auto
  show "0 < \<lceil>real_of_int m / real n\<rceil>" if "0 < m"
    using that assms by simp
qed


lemma merged_jobs_contribution:
  "merged_jobs w kw req srcs
     = concat (map (\<lambda>(k, s). contribution w kw req srcs k s) (enumerate 0 srcs))"
  by (simp add: merged_jobs_enumerate contribution_def)

lemma length_merged_jobs:
  assumes "resultsPerSource req srcs = Num c" and "0 \<le> c"
  shows "int (length (merged_jobs w kw req srcs)) \<le> int (length srcs) * c"
proof -
  have "int (length (merged_jobs w kw req srcs)) \<le> int (length (enumerate 0 srcs)) * c"
    unfolding merged_jobs_contribution
    by (rule length_concat_bound)
       (auto simp: contribution_def assms(1) intro!: length_scrape_source [OF assms(2)])
  then show ?thesis by simp
qed

section \<open>Progress numbers\<close>

lemma progress_values_append:
  "progress_values (xs @ ys) = progress_values xs @ progress_values ys"
  by (simp add: progress_values_def map_filter_def)

lemma progress_values_scrape_source:
  "progress_values (fst (scrape_source w kw loc b k s))
     = (if s = ''linkedin'' then [20] else if s = ''naukri'' then [40] else [])"
  by (simp add: progress_values_def map_filter_def scrape_source_def)

lemma progress_values_scrape_loop:
  "progress_values (fst (scrape_loop w kw loc b k srcs (fs, js)))
     = progress_values fs @ source_percents srcs"
proof (induction srcs arbitrary: k fs js)
  case Nil
  then show ?case by (simp add: source_percents_def)
next
  case (Cons s srcs)
  show ?case
    using Cons [of "Suc k" "fs @ fst (scrape_source w kw loc b k s)"
                   "js @ snd (scrape_source w kw loc b k s)"]
          progress_values_scrape_source [of w kw loc b k s]
    by (simp add: split_beta progress_values_append source_percents_def)
qed

lemma progress_values_Nil: "progress_values [] = []"
  by (simp add: progress_values_def map_filter_def)

lemma progress_values_scrape_frames:
  "progress_values (scrape_frames w kw req srcs) = source_percents srcs"
  by (simp add: scrape_frames_def progress_values_scrape_loop progress_values_Nil)

lemma source_percents_Cons:
  "source_percents (s # ss)
     = (if s = ''linkedin'' then [20] else if s = ''naukri'' then [40] else []) @ source_percents ss"
  by (simp add: source_percents_def)

lemma source_percents_range: "p \<in> set (source_percents srcs) \<Longrightarrow> p = 20 \<or> p = 40"
  by (auto simp: source_percents_def split: if_splits)

lemma source_percents_no_linkedin:
  "''linkedin'' \<notin> set srcs \<Longrightarrow> p \<in> set (source_percents srcs) \<Longrightarrow> p = 40"
  by (auto simp: source_percents_def split: if_splits)

lemma sorted_source_percents:
  "\<not> naukri_before_linkedin srcs \<Longrightarrow> sorted (source_percents srcs)"
proof (induction srcs)
  case Nil
  then show ?case by (simp add: source_percents_def)
next
  case (Cons s srcs)
  then have tail: "sorted (source_percents srcs)" by simp
  show ?case
  proof (cases "s = ''naukri''")
    case True
    with Cons.prems have "''linkedin'' \<notin> set srcs" by simp
    then have "\<forall>p \<in> set (source_percents srcs). 40 \<le> p"
      by (auto dest: source_percents_no_linkedin)
    with True tail show ?thesis by (simp add: source_percents_Cons)
  next
    case False
    have "\<forall>p \<in> set (source_percents srcs). 20 \<le> p"
      by (auto dest: source_percents_range)
    with False tail show ?thesis by (simp add: source_percents_Cons)
  qed
qed

section \<open>Email extraction and selection\<close>



lemma starts_with_iff: "starts_with pat s \<longleftrightarrow> (\<exists>post. s = pat @ post)"
  by (induction pat s rule: starts_with.induct) auto

lemma contains_iff: "contains pat s \<longleftrightarrow> (\<exists>pre post. s = pre @ pat @ post)"
proof (induction s)
  case Nil
  then show ?case by (auto simp: starts_with_iff)
next
  case (Cons c s)
  show ?case
  proof
    assume "contains pat (c # s)"
    then consider "starts_with pat (c # s)" | "contains pat s" by auto
    then show "\<exists>pre post. c # s = pre @ pat @ post"
    proof cases
      case 1
      then obtain post where "c # s = [] @ pat @ post" by (auto simp: starts_with_iff)
      then show ?thesis by blast
    next
      case 2
      with Cons obtain pre post where "s = pre @ pat @ post" by blast
      then have "c # s = (c # pre) @ pat @ post" by simp
      then show ?thesis by blast
    qed
  next
    assume "\<exists>pre post. c # s = pre @ pat @ post"
    then obtain pre post where eq: "c # s = pre @ pat @ post" by blast
    show "contains pat (c # s)"
    proof (cases pre)
      case Nil
      with eq have "starts_with pat (c # s)" by (auto simp: starts_with_iff)
      then show ?thesis by simp
    next
      case (Cons d pre')
      with eq have "s = pre' @ pat @ post" by simp
      with Cons.IH show ?thesis by auto
    qed
  qed
qed


lemma find_none: "\<forall>x \<in> set xs. \<not> P x \<Longrightarrow> find P xs = None"
  by (simp add: find_None_iff)





lemma role_test_iff:
  "role_test email \<longleftrightarrow>
     (\<exists>word \<in> {''hr'', ''careers'', ''recruitment'', ''jobs'', ''talent''}.
        \<exists>pre post. map to_lower email = pre @ word @ post)"
  by (simp add: role_test_def Let_def contains_iff)

section \<open>Extractor records in the merged and the final list\<close>

lemma enrich_loop_raw:
  "map raw_job.truncate (enrich_loop w 0 js) = map raw_job.truncate js"
proof (rule nth_equalityI)
  show "length (map raw_job.truncate (enrich_loop w 0 js)) = length (map raw_job.truncate js)"
    by (simp add: enrich_loop_length)
next
  fix i
  assume "i < length (map raw_job.truncate (enrich_loop w 0 js))"
  then have i: "i < length js" by (simp add: enrich_loop_length)
  have "raw_job.truncate (enrich_loop w 0 js ! i) = raw_job.truncate (js ! i)"
  proof (cases "i < 5")
    case True
    with i have "enrich_loop w 0 js ! i = enrich_job w i (js ! i)"
      by (intro enrich_loop_enriched) simp_all
    then show ?thesis by (simp add: enrich_job_raw)
  next
    case False
    then have "enrich_loop w 0 js ! i = js ! i"
      by (intro enrich_loop_untouched) simp
    then show ?thesis by simp
  qed
  with i show "map raw_job.truncate (enrich_loop w 0 js) ! i = map raw_job.truncate js ! i"
    by (simp add: enrich_loop_length)
qed

lemma slice0_map: "map f (slice0 b xs) = slice0 b (map f xs)"
  by (simp add: slice0_def take_map split: jsnum.splits)

lemma truncate_scraped: "map (raw_job.truncate \<circ> scraped) rs = rs"
  by (induction rs) (simp_all add: scraped_fields)

lemma contribution_raw:
  "map raw_job.truncate (contribution w kw req srcs k s)
     = (case extractor_outcome w kw (location req) k s of
          Some (Inr sourceJobs) \<Rightarrow> slice0 (resultsPerSource req srcs) sourceJobs
        | Some (Inl err) \<Rightarrow> []
        | None \<Rightarrow> [])"
  by (simp add: contribution_def scrape_source_outcome slice0_map truncate_scraped
           split: option.splits sum.splits)

lemma merged_jobs_raw:
  "map raw_job.truncate (merged_jobs w kw req srcs)
     = concat (map (\<lambda>(k, s). case extractor_outcome w kw (location req) k s of
                                 Some (Inr sourceJobs) \<Rightarrow>
                                   slice0 (resultsPerSource req srcs) sourceJobs
                               | Some (Inl err) \<Rightarrow> []
                               | None \<Rightarrow> [])
                   (enumerate 0 srcs))"
proof -
  have "map raw_job.truncate (merged_jobs w kw req srcs)
          = concat (map (\<lambda>(k, s). map raw_job.truncate (contribution w kw req srcs k s))
                        (enumerate 0 srcs))"
    by (simp add: merged_jobs_contribution map_concat comp_def case_prod_unfold)
  then show ?thesis by (simp only: contribution_raw)
qed

section \<open>Request validation\<close>

text \<open>
  Claim C3. A request whose \<open>keywords\<close> property is missing (or is the empty string) is
  answered synchronously with status 400 and the body \<open>{"error":"Keywords are required"}\<close>
  (\<open>ErrorBody m\<close> is the object whose only property is \<open>error\<close> with value \<open>m\<close>);
  the response is not an event stream, so no progress or complete frame is written.
\<close>

theorem missing_keywords_rejected:
  assumes "req_keywords req = None \<or> req_keywords req = Some []"
  shows "handler w req = Json 400 (ErrorBody ''Keywords are required'')
         \<and> (\<forall>frames. handler w req \<noteq> EventStream frames)"
  using assms by (auto simp: handler_def)

theorem missing_keywords_rejected_witness:
  "req_keywords no_keywords_request = None
   \<and> handler demo_world no_keywords_request = Json 400 (ErrorBody ''Keywords are required'')"
  using missing_keywords_rejected [of no_keywords_request demo_world]
  by (simp add: no_keywords_request_def)

text \<open>
  Claim C10. With keywords present and \<open>sources\<close> the empty array the handler returns no
  validation error: it writes the enrichment and completion progress frames and ends
  with a complete frame whose job list is empty. Such a request is not a valid one in
  the sense of \<open>valid_request\<close>, which asks for a non-empty \<open>sources\<close>.
\<close>

theorem empty_sources_streams:
  assumes "truthy (req_keywords req)" and "sources req = Some []"
  shows "handler w req =
           EventStream [Progress ''Finding career pages...'' 60,
                        Progress ''Complete!'' 100, Complete []]
         \<and> \<not> valid_request req"
  using assms
  by (auto simp: handler_def truthy_def valid_request_def enrich_loop_stop
           split: option.splits)

theorem empty_sources_streams_witness:
  "truthy (req_keywords (demo_request [] 10))
   \<and> sources (demo_request [] 10) = Some []
   \<and> handler demo_world (demo_request [] 10) =
       EventStream [Progress ''Finding career pages...'' 60,
                    Progress ''Complete!'' 100, Complete []]"
  using empty_sources_streams [of "demo_request [] 10" demo_world]
  by (simp add: demo_request_def truthy_def)

section \<open>Merging\<close>

text \<open>
  Claim C1, as the code has it. For a valid request the stream ends with a complete
  frame, and its job list has at most \<open>|sources| * ceil(maxResults / |sources|)\<close>
  entries: no truncation of the merged list follows the loop. The bound is below
  \<open>maxResults + |sources|\<close>, and it is \<open>maxResults\<close> when the number of sources divides
  \<open>maxResults\<close>. The counterexample is a valid request with \<open>maxResults = 3\<close> and two
  sources whose complete frame carries four jobs.
\<close>

theorem merged_length_bound:
  assumes "valid_request req" and "sources req = Some srcs"
  shows "\<exists>frames jobs.
           handler w req = EventStream (frames @ [Complete jobs])
           \<and> int (length jobs)
               \<le> int (length srcs)
                   * \<lceil>real_of_int (maxResults_or_default req) / real (length srcs)\<rceil>
           \<and> int (length jobs) < maxResults_or_default req + int (length srcs)
           \<and> (int (length srcs) dvd maxResults_or_default req
                \<longrightarrow> int (length jobs) \<le> maxResults_or_default req)"
proof -
  let ?c = "\<lceil>real_of_int (maxResults_or_default req) / real (length srcs)\<rceil>"
  from assms(1) obtain kw where kw: "req_keywords req = Some kw" "kw \<noteq> []"
    by (auto simp: valid_request_def truthy_def split: option.splits)
  let ?jobs = "enrich_loop w 0 (merged_jobs w kw req srcs)"
  note budget = valid_request_budget [OF assms]
  from budget(3) have n: "0 < length srcs" by simp
  from ceiling_quotient_bounds(3) [OF n budget(2)] have "0 \<le> ?c" by simp
  from length_merged_jobs [OF budget(1) this, of w kw]
  have len: "int (length ?jobs) \<le> int (length srcs) * ?c"
    by (simp add: enrich_loop_length)
  have "handler w req =
          EventStream ((scrape_frames w kw req srcs
                        @ [Progress ''Finding career pages...'' 60, Progress ''Complete!'' 100])
                       @ [Complete ?jobs])"
    using handler_streams [OF kw assms(2), of w] by simp
  moreover from len ceiling_quotient_bounds(1) [OF n, of "maxResults_or_default req"]
  have "int (length ?jobs) < maxResults_or_default req + int (length srcs)" by linarith
  moreover from len ceiling_quotient_bounds(2) [OF n, of "maxResults_or_default req"]
  have "int (length srcs) dvd maxResults_or_default req
          \<longrightarrow> int (length ?jobs) \<le> maxResults_or_default req" by auto
  ultimately show ?thesis using len by blast
qed

theorem merged_length_bound_witness:
  "valid_request (demo_request [''linkedin'', ''naukri''] 10)
   \<and> sources (demo_request [''linkedin'', ''naukri''] 10) = Some [''linkedin'', ''naukri'']
   \<and> (\<exists>frames jobs.
         handler demo_world (demo_request [''linkedin'', ''naukri''] 10)
           = EventStream (frames @ [Complete jobs])
         \<and> length jobs \<le> 10)"
proof -
  let ?req = "demo_request [''linkedin'', ''naukri''] 10"
  have valid: "valid_request ?req"
    by (simp add: valid_request_def demo_request_def truthy_def)
  have srcs: "sources ?req = Some [''linkedin'', ''naukri'']"
    by (simp add: demo_request_def)
  have "maxResults_or_default ?req = 10"
    by (simp add: maxResults_or_default_def demo_request_def)
  with merged_length_bound [OF valid srcs, of demo_world]
  have "\<exists>frames jobs. handler demo_world ?req = EventStream (frames @ [Complete jobs])
                       \<and> length jobs \<le> 10"
    by auto
  with valid srcs show ?thesis by blast
qed

theorem merged_length_counterexample:
  "valid_request (demo_request [''linkedin'', ''naukri''] 3)
   \<and> maxResults (demo_request [''linkedin'', ''naukri''] 3) = Some 3
   \<and> map_option length (complete_jobs (handler demo_world (demo_request [''linkedin'', ''naukri''] 3)))
       = Some 4"
  by code_simp



text \<open>
  Claim C4. For a request that streams, every frame before the final complete frame is
  a progress frame (the protocol has no error frame), the merged list is the
  concatenation over all sources in order, and an iteration whose extractor rejects
  contributes no record while every iteration whose extractor returns contributes its
  (capped) records: a failure neither stops the loop nor the stream. The job list of
  the complete frame is the merged list after enrichment; it has the length of the
  merged list, and read without the two enrichment properties it is exactly the
  concatenation, in source order, of the capped records of the extractors that
  returned.
\<close>

theorem failed_source_is_skipped:
  assumes "req_keywords req = Some kw" and "kw \<noteq> []" and "sources req = Some srcs"
  shows "(\<exists>frames jobs.
            handler w req = EventStream (frames @ [Complete jobs])
            \<and> (\<forall>f \<in> set frames. is_progress f)
            \<and> jobs = enrich_loop w 0 (merged_jobs w kw req srcs)
            \<and> length jobs = length (merged_jobs w kw req srcs)
            \<and> map raw_job.truncate jobs
                = concat (map (\<lambda>(k, s). case extractor_outcome w kw (location req) k s of
                                            Some (Inr sourceJobs) \<Rightarrow>
                                              slice0 (resultsPerSource req srcs) sourceJobs
                                          | Some (Inl err) \<Rightarrow> []
                                          | None \<Rightarrow> [])
                              (enumerate 0 srcs)))
         \<and> merged_jobs w kw req srcs
             = concat (map (\<lambda>(k, s). contribution w kw req srcs k s) (enumerate 0 srcs))
         \<and> (\<forall>(k, s) \<in> set (enumerate 0 srcs).
               contribution w kw req srcs k s
                 = (case extractor_outcome w kw (location req) k s of
                      Some (Inr sourceJobs) \<Rightarrow>
                        slice0 (resultsPerSource req srcs) (map scraped sourceJobs)
                    | Some (Inl err) \<Rightarrow> []
                    | None \<Rightarrow> []))"
proof -
  let ?pre = "scrape_frames w kw req srcs
              @ [Progress ''Finding career pages...'' 60, Progress ''Complete!'' 100]"
  let ?jobs = "enrich_loop w 0 (merged_jobs w kw req srcs)"
  have "handler w req = EventStream (?pre @ [Complete ?jobs])"
    using handler_streams [OF assms, of w] by simp
  moreover have "\<forall>f \<in> set ?pre. is_progress f"
    by (auto dest: scrape_frames_progress)
  moreover have "length ?jobs = length (merged_jobs w kw req srcs)"
    by (rule enrich_loop_length)
  moreover have "map raw_job.truncate ?jobs
                = concat (map (\<lambda>(k, s). case extractor_outcome w kw (location req) k s of
                                            Some (Inr sourceJobs) \<Rightarrow>
                                              slice0 (resultsPerSource req srcs) sourceJobs
                                          | Some (Inl err) \<Rightarrow> []
                                          | None \<Rightarrow> [])
                              (enumerate 0 srcs))"
    by (simp only: enrich_loop_raw merged_jobs_raw)
  ultimately have complete:
    "\<exists>frames jobs.
        handler w req = EventStream (frames @ [Complete jobs])
        \<and> (\<forall>f \<in> set frames. is_progress f)
        \<and> jobs = enrich_loop w 0 (merged_jobs w kw req srcs)
        \<and> length jobs = length (merged_jobs w kw req srcs)
        \<and> map raw_job.truncate jobs
            = concat (map (\<lambda>(k, s). case extractor_outcome w kw (location req) k s of
                                        Some (Inr sourceJobs) \<Rightarrow>
                                          slice0 (resultsPerSource req srcs) sourceJobs
                                      | Some (Inl err) \<Rightarrow> []
                                      | None \<Rightarrow> [])
                          (enumerate 0 srcs))"
    by blast
  have "\<forall>(k, s) \<in> set (enumerate 0 srcs).
               contribution w kw req srcs k s
                 = (case extractor_outcome w kw (location req) k s of
                      Some (Inr sourceJobs) \<Rightarrow>
                        slice0 (resultsPerSource req srcs) (map scraped sourceJobs)
                    | Some (Inl err) \<Rightarrow> []
                    | None \<Rightarrow> [])"
    by (auto simp: contribution_def scrape_source_outcome split: option.splits sum.splits)
  with complete show ?thesis
    using merged_jobs_contribution [of w kw req srcs] by blast
qed

theorem failed_source_is_skipped_witness:
  "req_keywords (demo_request [''linkedin'', ''naukri''] 10) = Some ''backend engineer''
   \<and> sources (demo_request [''linkedin'', ''naukri''] 10) = Some [''linkedin'', ''naukri'']
   \<and> extractor_outcome naukri_down_world ''backend engineer'' None 1 ''naukri''
       = Some (Inl (Rejected ''waiting for selector failed''))
   \<and> extractor_outcome naukri_down_world ''backend engineer'' None 0 ''linkedin''
       = Some (Inr (map (sample_job ''linkedin'') [0..<7]))
   \<and> contribution naukri_down_world ''backend engineer''
        (demo_request [''linkedin'', ''naukri''] 10) [''linkedin'', ''naukri''] 1 ''naukri'' = []
   \<and> (\<exists>frames jobs.
         handler naukri_down_world (demo_request [''linkedin'', ''naukri''] 10)
           = EventStream (frames @ [Complete jobs])
         \<and> map raw_job.truncate jobs = map (sample_job ''linkedin'') [0..<5]
         \<and> map source jobs = replicate 5 ''linkedin'')"
proof -
  let ?req = "demo_request [''linkedin'', ''naukri''] 10"
  let ?srcs = "[''linkedin'', ''naukri'']"
  let ?jobs = "enrich_loop naukri_down_world 0
                 (merged_jobs naukri_down_world ''backend engineer'' ?req ?srcs)"
  have kw: "req_keywords ?req = Some ''backend engineer''" and srcs: "sources ?req = Some ?srcs"
    and loc: "location ?req = None"
    by (simp_all add: demo_request_def)
  have ne: "''backend engineer'' \<noteq> []" by simp
  note skipped = failed_source_is_skipped [OF kw ne srcs, of naukri_down_world]
  have thrown: "extractor_outcome naukri_down_world ''backend engineer'' None 1 ''naukri''
                  = Some (Inl (Rejected ''waiting for selector failed''))"
    by (simp add: extractor_outcome_def naukri_down_world_def demo_world_def)
  have returned: "extractor_outcome naukri_down_world ''backend engineer'' None 0 ''linkedin''
                    = Some (Inr (map (sample_job ''linkedin'') [0..<7]))"
    by (simp add: extractor_outcome_def naukri_down_world_def demo_world_def)
  have "(1, ''naukri'') \<in> set (enumerate 0 ?srcs)" by (simp add: enumerate_eq_zip upt_rec)
  with skipped thrown loc
  have none: "contribution naukri_down_world ''backend engineer'' ?req ?srcs 1 ''naukri'' = []"
    by fastforce
  have budget: "resultsPerSource ?req ?srcs = Num 5"
    by (simp add: resultsPerSource_def maxResults_or_default_def demo_request_def math_ceil_div_def)
  have five: "slice0 (Num 5) (map (sample_job ''linkedin'') [0..<7])
                = map (sample_job ''linkedin'') [0..<5]"
    by (simp add: slice0_def upt_rec)
  from skipped obtain frames jobs
    where stream: "handler naukri_down_world ?req = EventStream (frames @ [Complete jobs])"
      and raw: "map raw_job.truncate jobs
                  = concat (map (\<lambda>(k, s). case extractor_outcome naukri_down_world
                                                 ''backend engineer'' (location ?req) k s of
                                            Some (Inr sourceJobs) \<Rightarrow>
                                              slice0 (resultsPerSource ?req ?srcs) sourceJobs
                                          | Some (Inl err) \<Rightarrow> []
                                          | None \<Rightarrow> [])
                              (enumerate 0 ?srcs))"
    by blast
  from thrown
  have thrown': "extractor_outcome naukri_down_world ''backend engineer'' None (Suc 0) ''naukri''
                   = Some (Inl (Rejected ''waiting for selector failed''))"
    by simp
  from raw have records: "map raw_job.truncate jobs = map (sample_job ''linkedin'') [0..<5]"
    by (simp add: loc thrown' returned budget five)
  have "map source jobs = map source (map raw_job.truncate jobs)"
    by (simp add: raw_job.defs)
  also have "\<dots> = replicate 5 ''linkedin''"
    unfolding records by (simp add: sample_job_def upt_rec numeral_eq_Suc)
  finally have only: "map source jobs = replicate 5 ''linkedin''" .
  from stream records only
  have "\<exists>frames jobs.
         handler naukri_down_world ?req = EventStream (frames @ [Complete jobs])
         \<and> map raw_job.truncate jobs = map (sample_job ''linkedin'') [0..<5]
         \<and> map source jobs = replicate 5 ''linkedin''"
    by blast
  with kw srcs thrown returned none show ?thesis by simp
qed

section \<open>Order of the stream\<close>

text \<open>
  Claim C2, as the code has it. Every stream is a sequence of progress frames followed
  by exactly one complete frame, which is last. The progress numbers are non-decreasing
  when no \<open>linkedin\<close> entry follows a \<open>naukri\<close> entry in \<open>sources\<close>: the numbers \<open>20\<close> and
  \<open>40\<close> belong to the source, not to the position. The counterexample is the order
  \<open>naukri, linkedin\<close>, whose progress numbers are \<open>40, 20, 60, 100\<close>.
\<close>

theorem stream_order:
  assumes "handler w req = EventStream frames"
  shows "(\<exists>progress jobs. frames = progress @ [Complete jobs]
            \<and> (\<forall>f \<in> set progress. is_progress f))
         \<and> (\<forall>srcs. sources req = Some srcs \<and> \<not> naukri_before_linkedin srcs
               \<longrightarrow> sorted (progress_values frames))"
proof -
  from assms obtain kw srcs
    where kw: "req_keywords req = Some kw" "kw \<noteq> []" and srcs: "sources req = Some srcs"
    by (rule handler_stream_cases)
  let ?pre = "scrape_frames w kw req srcs
              @ [Progress ''Finding career pages...'' 60, Progress ''Complete!'' 100]"
  let ?jobs = "enrich_loop w 0 (merged_jobs w kw req srcs)"
  from handler_streams [OF kw srcs, of w] assms
  have frames: "frames = ?pre @ [Complete ?jobs]" by simp
  have "\<forall>f \<in> set ?pre. is_progress f" by (auto dest: scrape_frames_progress)
  with frames have shape: "\<exists>progress jobs. frames = progress @ [Complete jobs]
            \<and> (\<forall>f \<in> set progress. is_progress f)"
    by blast
  have percents: "progress_values frames = source_percents srcs @ [60, 100]"
    by (simp add: frames progress_values_append progress_values_scrape_frames)
       (simp add: progress_values_def map_filter_def)
  have "sorted (progress_values frames)" if "\<not> naukri_before_linkedin srcs"
  proof -
    from that have "sorted (source_percents srcs)" by (rule sorted_source_percents)
    moreover have "\<forall>p \<in> set (source_percents srcs). p \<le> 60"
      by (auto dest: source_percents_range)
    ultimately show ?thesis by (fastforce simp: percents sorted_append)
  qed
  with shape srcs show ?thesis by auto
qed

theorem stream_order_witness:
  "\<exists>frames.
     handler demo_world (demo_request [''linkedin'', ''unknown'', ''naukri''] 4) = EventStream frames
     \<and> sources (demo_request [''linkedin'', ''unknown'', ''naukri''] 4)
         = Some [''linkedin'', ''unknown'', ''naukri'']
     \<and> \<not> naukri_before_linkedin [''linkedin'', ''unknown'', ''naukri'']
     \<and> progress_values frames = [20, 40, 60, 100]
     \<and> sorted (progress_values frames)
     \<and> (\<exists>progress jobs. frames = progress @ [Complete jobs])"
proof -
  let ?req = "demo_request [''linkedin'', ''unknown'', ''naukri''] 4"
  let ?srcs = "[''linkedin'', ''unknown'', ''naukri'']"
  let ?frames = "scrape_frames demo_world ''backend engineer'' ?req ?srcs
                 @ [Progress ''Finding career pages...'' 60, Progress ''Complete!'' 100,
                    Complete (enrich_loop demo_world 0
                                (merged_jobs demo_world ''backend engineer'' ?req ?srcs))]"
  have stream: "handler demo_world ?req = EventStream ?frames"
    by (rule handler_streams) (simp_all add: demo_request_def)
  have srcs: "sources ?req = Some ?srcs" by (simp add: demo_request_def)
  have order: "\<not> naukri_before_linkedin ?srcs" by simp
  have percents: "progress_values ?frames = [20, 40, 60, 100]"
    by (simp add: progress_values_append progress_values_scrape_frames source_percents_def)
       (simp add: progress_values_def map_filter_def)
  from stream_order [OF stream] srcs order
  have "sorted (progress_values ?frames)
        \<and> (\<exists>progress jobs. ?frames = progress @ [Complete jobs])"
    by blast
  with stream srcs order percents show ?thesis by blast
qed

theorem stream_order_counterexample:
  "progress_values (frames_of (handler demo_world (demo_request [''naukri'', ''linkedin''] 10)))
     = [40, 20, 60, 100]
   \<and> \<not> sorted (progress_values
                (frames_of (handler demo_world (demo_request [''naukri'', ''linkedin''] 10))))"
  by code_simp

section \<open>Enrichment\<close>

text \<open>
  Claim C5. For a request that streams, the job list of the complete frame is the merged
  list after the enrichment loop. The loop keeps the length, leaves every property
  written by the extractor unchanged at every index, applies the enrichment step to the
  indices below \<open>min(length, 5)\<close> in order, and leaves every job at index \<open>5\<close> or beyond
  as it was merged, which is without \<open>careerPageUrl\<close> and without \<open>hrEmail\<close>.
\<close>

theorem enrichment_prefix_only:
  assumes "req_keywords req = Some kw" and "kw \<noteq> []" and "sources req = Some srcs"
  shows "(\<exists>frames. handler w req =
            EventStream (frames @ [Complete (enrich_loop w 0 (merged_jobs w kw req srcs))]))
         \<and> length (enrich_loop w 0 (merged_jobs w kw req srcs)) = length (merged_jobs w kw req srcs)
         \<and> (\<forall>i < length (merged_jobs w kw req srcs).
               raw_job.truncate (enrich_loop w 0 (merged_jobs w kw req srcs) ! i)
                 = raw_job.truncate (merged_jobs w kw req srcs ! i)
               \<and> (i < 5 \<longrightarrow> enrich_loop w 0 (merged_jobs w kw req srcs) ! i
                              = enrich_job w i (merged_jobs w kw req srcs ! i))
               \<and> (5 \<le> i \<longrightarrow> enrich_loop w 0 (merged_jobs w kw req srcs) ! i
                                = merged_jobs w kw req srcs ! i
                              \<and> careerPageUrl (enrich_loop w 0 (merged_jobs w kw req srcs) ! i) = Absent
                              \<and> hrEmail (enrich_loop w 0 (merged_jobs w kw req srcs) ! i) = Absent))"
proof -
  let ?m = "merged_jobs w kw req srcs"
  have stream: "\<exists>frames. handler w req = EventStream (frames @ [Complete (enrich_loop w 0 ?m)])"
    using handler_streams [OF assms, of w]
    by (intro exI [of _ "scrape_frames w kw req srcs
          @ [Progress ''Finding career pages...'' 60, Progress ''Complete!'' 100]"]) simp
  have per_index:
    "raw_job.truncate (enrich_loop w 0 ?m ! i) = raw_job.truncate (?m ! i)
     \<and> (i < 5 \<longrightarrow> enrich_loop w 0 ?m ! i = enrich_job w i (?m ! i))
     \<and> (5 \<le> i \<longrightarrow> enrich_loop w 0 ?m ! i = ?m ! i
                    \<and> careerPageUrl (enrich_loop w 0 ?m ! i) = Absent
                    \<and> hrEmail (enrich_loop w 0 ?m ! i) = Absent)"
    if "i < length ?m" for i
  proof (cases "i < 5")
    case True
    with that have "enrich_loop w 0 ?m ! i = enrich_job w i (?m ! i)"
      by (intro enrich_loop_enriched) simp_all
    with True show ?thesis by (simp add: enrich_job_raw)
  next
    case False
    then have same: "enrich_loop w 0 ?m ! i = ?m ! i"
      by (intro enrich_loop_untouched) simp
    from that have "?m ! i \<in> set ?m" by simp
    from merged_jobs_fresh [OF this] same False show ?thesis by simp
  qed
  from stream per_index enrich_loop_length [of w 0 ?m] show ?thesis by blast
qed

theorem enrichment_prefix_only_witness:
  "req_keywords (demo_request [''linkedin'', ''naukri''] 12) = Some ''backend engineer''
   \<and> sources (demo_request [''linkedin'', ''naukri''] 12) = Some [''linkedin'', ''naukri'']
   \<and> length (merged_jobs demo_world ''backend engineer''
               (demo_request [''linkedin'', ''naukri''] 12) [''linkedin'', ''naukri'']) = 12
   \<and> careerPageUrl (enrich_loop demo_world 0 (merged_jobs demo_world ''backend engineer''
               (demo_request [''linkedin'', ''naukri''] 12) [''linkedin'', ''naukri'']) ! 4)
       = Str ''https://acme.example/careers''
   \<and> careerPageUrl (enrich_loop demo_world 0 (merged_jobs demo_world ''backend engineer''
               (demo_request [''linkedin'', ''naukri''] 12) [''linkedin'', ''naukri'']) ! 5)
       = Absent
   \<and> hrEmail (enrich_loop demo_world 0 (merged_jobs demo_world ''backend engineer''
               (demo_request [''linkedin'', ''naukri''] 12) [''linkedin'', ''naukri'']) ! 5)
       = Absent"
proof -
  let ?req = "demo_request [''linkedin'', ''naukri''] 12"
  let ?m = "merged_jobs demo_world ''backend engineer'' ?req [''linkedin'', ''naukri'']"
  have kw: "req_keywords ?req = Some ''backend engineer''"
    and srcs: "sources ?req = Some [''linkedin'', ''naukri'']"
    by (simp_all add: demo_request_def)
  have len: "length ?m = 12" by code_simp
  have fifth: "careerPageUrl (enrich_loop demo_world 0 ?m ! 4) = Str ''https://acme.example/careers''"
    by code_simp
  have ne: "''backend engineer'' \<noteq> []" by simp
  have "5 < length ?m" and "(5::nat) \<le> 5" by (simp_all add: len)
  with enrichment_prefix_only
         [OF kw ne srcs, of demo_world, THEN conjunct2, THEN conjunct2, rule_format, of 5]
  have "careerPageUrl (enrich_loop demo_world 0 ?m ! 5) = Absent
        \<and> hrEmail (enrich_loop demo_world 0 ?m ! 5) = Absent"
    by blast
  with kw srcs len fifth show ?thesis by simp
qed

text \<open>
  Claim C9. In the job list of the complete frame, a job that carries \<open>hrEmail\<close> carries
  a \<open>careerPageUrl\<close> that is a non-empty string: the email lookup is made only after a
  truthy career-page URL was stored.
\<close>

theorem hrEmail_needs_careerPageUrl:
  assumes "handler w req = EventStream frames"
    and "Complete jobs \<in> set frames"
    and "j \<in> set jobs"
    and "hrEmail j \<noteq> Absent"
  shows "\<exists>url. careerPageUrl j = Str url \<and> url \<noteq> []"
proof -
  from assms(1) obtain kw srcs
    where kw: "req_keywords req = Some kw" "kw \<noteq> []" and srcs: "sources req = Some srcs"
    by (rule handler_stream_cases)
  let ?m = "merged_jobs w kw req srcs"
  from handler_streams [OF kw srcs, of w] assms(1)
  have frames: "frames = scrape_frames w kw req srcs
                  @ [Progress ''Finding career pages...'' 60, Progress ''Complete!'' 100,
                     Complete (enrich_loop w 0 ?m)]"
    by simp
  have "jobs = enrich_loop w 0 ?m"
    using assms(2) scrape_frames_progress [of "Complete jobs" w kw req srcs]
    by (auto simp: frames)
  with assms(3) obtain i where i: "i < length ?m" and j: "j = enrich_loop w 0 ?m ! i"
    by (auto simp: in_set_conv_nth enrich_loop_length)
  from i have fresh: "hrEmail (?m ! i) = Absent"
    using merged_jobs_fresh [of "?m ! i" w kw req srcs] by simp
  show ?thesis
  proof (cases "i < 5")
    case True
    with i have "j = enrich_job w i (?m ! i)"
      unfolding j by (intro enrich_loop_enriched) simp_all
    with fresh assms(4) show ?thesis by (auto dest: enrich_job_hr)
  next
    case False
    then have "j = ?m ! i" unfolding j by (intro enrich_loop_untouched) simp
    with fresh assms(4) show ?thesis by simp
  qed
qed

theorem hrEmail_needs_careerPageUrl_witness:
  "\<exists>frames jobs.
     handler demo_world (demo_request [''linkedin''] 2) = EventStream frames
     \<and> Complete jobs \<in> set frames
     \<and> jobs ! 0 \<in> set jobs
     \<and> hrEmail (jobs ! 0) = Str ''HR@acme.example''
     \<and> careerPageUrl (jobs ! 0) = Str ''https://acme.example/careers''"
proof -
  let ?req = "demo_request [''linkedin''] 2"
  let ?m = "merged_jobs demo_world ''backend engineer'' ?req [''linkedin'']"
  let ?jobs = "enrich_loop demo_world 0 ?m"
  let ?frames = "scrape_frames demo_world ''backend engineer'' ?req [''linkedin'']
                 @ [Progress ''Finding career pages...'' 60, Progress ''Complete!'' 100,
                    Complete ?jobs]"
  have stream: "handler demo_world ?req = EventStream ?frames"
    by (rule handler_streams) (simp_all add: demo_request_def)
  have complete: "Complete ?jobs \<in> set ?frames" by simp
  have "length ?m = 2" by code_simp
  then have mem: "?jobs ! 0 \<in> set ?jobs" by (simp add: enrich_loop_length)
  have email: "hrEmail (?jobs ! 0) = Str ''HR@acme.example''" by code_simp
  then have present: "hrEmail (?jobs ! 0) \<noteq> Absent" by simp
  have url: "careerPageUrl (?jobs ! 0) = Str ''https://acme.example/careers''" by code_simp
  from hrEmail_needs_careerPageUrl [OF stream complete mem present]
  have "\<exists>u. careerPageUrl (?jobs ! 0) = Str u \<and> u \<noteq> []" .
  with stream complete mem email url show ?thesis by blast
qed

section \<open>The enrichment calls\<close>

text \<open>
  Claim C7, as the code has it. When the shared browser is obtained, the page session
  is created and the page closes, neither \<open>findCareerPage\<close> nor \<open>findHREmail\<close> raises:
  each returns \<open>null\<close> on a rejection of anything inside its \<open>try\<close> block (user agent,
  navigation, evaluation) and otherwise what the page yields, which is \<open>null\<close> when
  nothing is found. \<open>getBrowser()\<close> and \<open>browser.newPage()\<close> stand before the \<open>try\<close> and
  \<open>page.close()\<close> in the \<open>finally\<close>; the counterexample is a page session that cannot be
  created, where both functions raise. The handler's own \<open>try\<close> around each job absorbs
  such an exception.
\<close>

theorem enrichment_calls_degrade_to_null:
  assumes "getBrowser_throws pg = None" and "newPage_throws pg = None"
    and "close_throws pg = None"
  shows "snd (findCareerPage pg companyName)
           = Inr (if setUserAgent_throws pg = None \<and> goto_throws pg = None
                     \<and> evaluate_throws pg = None
                  then firstResult pg else None)
         \<and> snd (findHREmail pg url)
             = Inr (if truthy url \<and> goto_throws pg = None \<and> evaluate_throws pg = None
                    then pick_email (bodyText pg) else None)"
  using assms
  by (auto simp: findCareerPage_def findCareerPage_try_def findHREmail_def findHREmail_try_def
                 truthy_def
           split: option.splits)

theorem enrichment_calls_degrade_to_null_witness:
  "getBrowser_throws timeout_page = None \<and> newPage_throws timeout_page = None
   \<and> close_throws timeout_page = None
   \<and> goto_throws timeout_page = Some (Rejected ''Navigation timeout'')
   \<and> snd (findCareerPage timeout_page ''Acme'') = Inr None
   \<and> snd (findHREmail timeout_page (Some ''https://acme.example/careers'')) = Inr None"
proof -
  have ops: "getBrowser_throws timeout_page = None" "newPage_throws timeout_page = None"
    "close_throws timeout_page = None"
    and nav: "goto_throws timeout_page = Some (Rejected ''Navigation timeout'')"
    by (simp_all add: timeout_page_def ok_page_def)
  from enrichment_calls_degrade_to_null
         [OF ops, of "''Acme''" "Some ''https://acme.example/careers''"] nav
  have "snd (findCareerPage timeout_page ''Acme'') = Inr None
        \<and> snd (findHREmail timeout_page (Some ''https://acme.example/careers'')) = Inr None"
    by simp
  with ops nav show ?thesis by simp
qed

theorem enrichment_calls_raise_counterexample:
  "snd (findCareerPage no_session_page ''Acme'') = Inl (Rejected ''Target closed'')
   \<and> snd (findHREmail no_session_page (Some ''https://acme.example/careers''))
       = Inl (Rejected ''Target closed'')"
  by code_simp



end
